theory Spec2Isabelle
  imports Complex_Main
begin

section \<open>Python values, errors and the library environment\<close>

text \<open>
  Modelled from the spec: \<open>dx.types.DXDisplayMode\<close> is a closed enumeration with the three
  members \<open>enhanced\<close>, \<open>simple\<close> and \<open>plain\<close>, whose values are the strings of the same name
  (the docstring of \<open>set_display_mode\<close> spells them the same way).
\<close>

datatype DXDisplayMode = enhanced | simple | plain

fun mode_value :: "DXDisplayMode \<Rightarrow> string" where
  "mode_value enhanced = ''enhanced''"
| "mode_value simple = ''simple''"
| "mode_value plain = ''plain''"

text \<open>
  The Python objects that reach the settings module. A class object is identified by its
  name, a member of \<open>DXSamplingMethod\<close> by its member name, a finite float by its exact
  value. A Python set is kept as the list of its elements in iteration order.
\<close>

datatype pyval =
    PNone
  | PBool bool
  | PInt int
  | PFloat rat
  | PStr string
  | PType string
  | PMode DXDisplayMode
  | PSampling string
  | PList "pyval list"
  | PSet "pyval list"

text \<open>Why a validator rejected a value.\<close>

datatype reason =
    MustBeNonNegative
  | PyTypeError
  | CantEvaluate pyval
  | EngineRejected
  | NotOfFieldType

text \<open>
  Every exception of the module is a \<open>ValueError\<close> of Python; the model keeps apart who
  raised it: pydantic's \<open>ValidationError\<close> for a field, the two \<open>ValueError\<close>s of
  \<open>set_option\<close> and \<open>set_display_mode\<close>, and what the libraries raise on their own.
\<close>

datatype exn =
    ValidationError string reason
  | NotAValidSetting string
  | NotASupportedDisplayMode pyval
  | OptionError string
  | LoggingError
  | AttributeError
  | UnhashableType

text \<open>\<open>str.upper\<close> on ASCII text.\<close>

definition upper_char :: "char \<Rightarrow> char" where
  "upper_char c =
     (let n = of_char c :: nat in if 97 \<le> n \<and> n \<le> 122 then char_of (n - 32) else c)"

definition upper :: "string \<Rightarrow> string" where
  "upper s = map upper_char s"

text \<open>Truth value of an object, as \<open>if x:\<close> tests it.\<close>

fun truthy :: "pyval \<Rightarrow> bool" where
  "truthy PNone = False"
| "truthy (PBool b) = b"
| "truthy (PInt i) = (i \<noteq> 0)"
| "truthy (PFloat q) = (q \<noteq> 0)"
| "truthy (PStr s) = (s \<noteq> [])"
| "truthy (PType t) = True"
| "truthy (PMode m) = True"
| "truthy (PSampling m) = True"
| "truthy (PList xs) = (xs \<noteq> [])"
| "truthy (PSet xs) = (xs \<noteq> [])"

text \<open>\<open>val < 0\<close>: \<open>None\<close> is the \<open>TypeError\<close> of an unordered comparison.\<close>

fun py_lt0 :: "pyval \<Rightarrow> bool option" where
  "py_lt0 (PInt i) = Some (i < 0)"
| "py_lt0 (PBool b) = Some False"
| "py_lt0 (PFloat q) = Some (q < 0)"
| "py_lt0 v = None"

fun hashable :: "pyval \<Rightarrow> bool" where
  "hashable (PList xs) = False"
| "hashable (PSet xs) = False"
| "hashable v = True"

text \<open>
  Keys of a set: \<open>True == 1 == 1.0\<close> in Python, so numbers are compared by value.
\<close>

fun py_key :: "pyval \<Rightarrow> pyval" where
  "py_key (PBool b) = PFloat (if b then 1 else 0)"
| "py_key (PInt i) = PFloat (of_int i)"
| "py_key v = v"

definition set_add :: "pyval list \<Rightarrow> pyval \<Rightarrow> pyval list" where
  "set_add xs x = (if py_key x \<in> py_key ` set xs then xs else xs @ [x])"

section \<open>The Configuration: declared fields and process state\<close>

datatype ftype = TInt | TBool | TStr | TFloat | TMode | TSampling | TTypeSet

text \<open>
  The fields of \<open>Settings\<close> in the order of \<open>settings.dict()\<close>: the annotated fields as
  declared, then \<open>LOG_LEVEL\<close>, whose type pydantic infers from its default.
\<close>

definition schema :: "(string \<times> ftype) list" where
  "schema =
    [(''DISPLAY_MAX_ROWS'', TInt),
     (''DISPLAY_MAX_COLUMNS'', TInt),
     (''HTML_TABLE_SCHEMA'', TBool),
     (''MEDIA_TYPE'', TStr),
     (''MAX_RENDER_SIZE_BYTES'', TInt),
     (''RENDERABLE_OBJECTS'', TTypeSet),
     (''SAMPLING_FACTOR'', TFloat),
     (''DISPLAY_MODE'', TMode),
     (''SAMPLING_METHOD'', TSampling),
     (''COLUMN_SAMPLING_METHOD'', TSampling),
     (''ROW_SAMPLING_METHOD'', TSampling),
     (''RANDOM_STATE'', TInt),
     (''RESET_INDEX_VALUES'', TBool),
     (''FLATTEN_INDEX_VALUES'', TBool),
     (''FLATTEN_COLUMN_VALUES'', TBool),
     (''STRINGIFY_INDEX_VALUES'', TBool),
     (''STRINGIFY_COLUMN_VALUES'', TBool),
     (''DATETIME_STRING_FORMAT'', TStr),
     (''ENABLE_DATALINK'', TBool),
     (''LOG_LEVEL'', TInt)]"

definition field_names :: "string list" where
  "field_names = map fst schema"

text \<open>The three functions of the formatter registry that \<open>set_display_mode\<close> calls.\<close>

datatype action = Register | Deregister | Reset

text \<open>
  The process state: the field values of the \<open>settings\<close> singleton, the option store of
  the display engine (pandas), the level of the logger \<open>dx\<close>, and the calls made to the
  formatter registry.
\<close>

record state =
  settings :: "string \<Rightarrow> pyval"
  pd :: "string \<Rightarrow> pyval"
  logger_level :: pyval
  calls :: "action list"

type_synonym cmd = "state \<Rightarrow> exn option \<times> state"

text \<open>Run \<open>g\<close> after \<open>f\<close> unless \<open>f\<close> raised.\<close>

definition and_then :: "exn option \<times> state \<Rightarrow> cmd \<Rightarrow> exn option \<times> state" where
  "and_then r g = (case r of (Some e, s) \<Rightarrow> (Some e, s) | (None, s) \<Rightarrow> g s)"

text \<open>
  What the source leaves to code that is not part of it:
  \<^item> \<open>obj_str\<close>: \<open>str(x)\<close> of an object that is not a string (for a member of
    \<open>DXDisplayMode\<close> it depends on the enumeration's class, which is declared in \<open>dx.types\<close>);
  \<^item> \<open>coerce_other\<close>: what pydantic's type validator of a field makes of a value that is
    not already of the field's type (\<open>None\<close>: it rejects the value);
  \<^item> \<open>eval_str\<close>: \<open>eval(str(x))\<close>, \<open>None\<close> when it raises;
  \<^item> \<open>formatter_effect\<close>: what \<open>register\<close>, \<open>deregister\<close> and \<open>reset\<close> of
    \<open>dx.formatters\<close> do to the process state, and whether they raise. The comment in
    \<open>settings_context\<close> says that a change of the display mode can overwrite other
    settings, so nothing is assumed about it here.
\<close>

record pyenv =
  obj_str :: "pyval \<Rightarrow> string"
  coerce_other :: "string \<Rightarrow> pyval \<Rightarrow> pyval option"
  eval_str :: "pyval \<Rightarrow> pyval option"
  formatter_effect :: "action \<Rightarrow> state \<Rightarrow> exn option \<times> state"

definition py_str :: "pyenv \<Rightarrow> pyval \<Rightarrow> string" where
  "py_str env v = (case v of PStr s \<Rightarrow> s | _ \<Rightarrow> obj_str env v)"

section \<open>The external engines\<close>

text \<open>
  \<open>pandas.set_option\<close> with the validators pandas registers for the three options:
  the two limits take \<open>None\<close> or a non-negative \<open>int\<close> (a \<open>bool\<close> is one), the schema
  flag takes a \<open>bool\<close>.
\<close>

fun pd_accepts :: "string \<Rightarrow> pyval \<Rightarrow> bool" where
  "pd_accepts k PNone = (k = ''display.max_rows'' \<or> k = ''display.max_columns'')"
| "pd_accepts k (PInt i) = ((k = ''display.max_rows'' \<or> k = ''display.max_columns'') \<and> 0 \<le> i)"
| "pd_accepts k (PBool b) =
     (k = ''display.max_rows'' \<or> k = ''display.max_columns'' \<or> k = ''html.table_schema'')"
| "pd_accepts k v = False"

definition pandas_set_option :: "string \<Rightarrow> pyval \<Rightarrow> cmd" where
  "pandas_set_option k v s =
     (if pd_accepts k v then (None, s\<lparr>pd := (pd s)(k := v)\<rparr>) else (Some (OptionError k), s))"

text \<open>\<open>logging.getLogger("dx").setLevel(level)\<close>: an \<open>int\<close> or the name of a level.\<close>

definition level_names :: "(string \<times> int) list" where
  "level_names =
    [(''CRITICAL'', 50), (''FATAL'', 50), (''ERROR'', 40), (''WARN'', 30), (''WARNING'', 30),
     (''INFO'', 20), (''DEBUG'', 10), (''NOTSET'', 0)]"

fun set_log_level :: "pyval \<Rightarrow> cmd" where
  "set_log_level (PInt i) s = (None, s\<lparr>logger_level := PInt i\<rparr>)"
| "set_log_level (PBool b) s = (None, s\<lparr>logger_level := PBool b\<rparr>)"
| "set_log_level (PStr n) s =
     (case map_of level_names n of
        Some i \<Rightarrow> (None, s\<lparr>logger_level := PInt i\<rparr>)
      | None \<Rightarrow> (Some LoggingError, s))"
| "set_log_level v s = (Some LoggingError, s)"

text \<open>
  Modelled from the spec: the formatter registry of the interactive session exposes
  \<open>register\<close>, \<open>deregister\<close> and \<open>reset\<close> (\<open>dx.formatters\<close> is not part of the source).
  A call does to the state what \<open>formatter_effect\<close> says, and the model records the
  call in \<open>calls\<close>, in order.
\<close>

definition formatter_call :: "pyenv \<Rightarrow> action \<Rightarrow> cmd" where
  "formatter_call env a s =
     (case formatter_effect env a s of (e, u) \<Rightarrow> (e, u\<lparr>calls := calls s @ [a]\<rparr>))"

definition register :: "pyenv \<Rightarrow> cmd" where
  "register env s = formatter_call env Register s"

definition deregister :: "pyenv \<Rightarrow> cmd" where
  "deregister env s = formatter_call env Deregister s"

definition reset :: "pyenv \<Rightarrow> cmd" where
  "reset env s = formatter_call env Reset s"

section \<open>The validators of the Configuration Store\<close>

text \<open>\<open>str.split()\<close>: the words between runs of ASCII whitespace.\<close>

definition is_space :: "char \<Rightarrow> bool" where
  "is_space c = (let n = of_char c :: nat in n = 32 \<or> (9 \<le> n \<and> n \<le> 13) \<or> (28 \<le> n \<and> n \<le> 31))"

fun split_ws :: "string \<Rightarrow> string \<Rightarrow> string list" where
  "split_ws w [] = (if w = [] then [] else [w])"
| "split_ws w (c # cs) =
     (if is_space c then (if w = [] then split_ws [] cs else w # split_ws [] cs)
      else split_ws (w @ [c]) cs)"

definition py_split :: "string \<Rightarrow> string list" where
  "py_split s = split_ws [] s"

text \<open>
  The loop of \<open>validate_renderables\<close>: a type is added as it is, anything else is
  evaluated; a failure of \<open>eval\<close> or of \<open>valid_vals.add\<close> is caught and raised again
  as the \<open>ValueError\<close> that names \<open>val\<close>.
\<close>

fun renderables_loop :: "pyenv \<Rightarrow> pyval list \<Rightarrow> pyval list \<Rightarrow> reason + pyval list" where
  "renderables_loop env valid_vals [] = Inr valid_vals"
| "renderables_loop env valid_vals (val # vals) =
     (case val of
        PType t \<Rightarrow> renderables_loop env (set_add valid_vals val) vals
      | _ \<Rightarrow>
        (case eval_str env val of
           None \<Rightarrow> Inl (CantEvaluate val)
         | Some val_type \<Rightarrow>
             if hashable val_type then renderables_loop env (set_add valid_vals val_type) vals
             else Inl (CantEvaluate val)))"

definition validate_renderables :: "pyenv \<Rightarrow> pyval \<Rightarrow> reason + pyval" where
  "validate_renderables env vals0 =
     (let vals1 = (case vals0 of
                     PStr s \<Rightarrow> PList (map PStr (py_split (filter (\<lambda>c. c \<noteq> CHR '','') s)))
                   | _ \<Rightarrow> vals0)
      in case (case vals1 of
                 PSet xs \<Rightarrow> Inr xs
               | _ \<Rightarrow> if hashable vals1 then Inr [vals1] else Inl PyTypeError) of
           Inl why \<Rightarrow> Inl why
         | Inr xs \<Rightarrow>
             (case renderables_loop env [] xs of
                Inl why \<Rightarrow> Inl why
              | Inr valid_vals \<Rightarrow> Inr (PSet valid_vals)))"

text \<open>
  A validator that pushes into the display engine: a \<open>ValueError\<close> of the engine is a
  validation failure like any other.
\<close>

definition push_engine :: "string \<Rightarrow> pyval \<Rightarrow> state \<Rightarrow> (reason + pyval) \<times> state" where
  "push_engine k val s =
     (case pandas_set_option k val s of
        (Some e, s') \<Rightarrow> (Inl EngineRejected, s')
      | (None, s') \<Rightarrow> (Inr val, s'))"

definition validate_display_max_columns :: "pyval \<Rightarrow> state \<Rightarrow> (reason + pyval) \<times> state" where
  "validate_display_max_columns val s =
     (case py_lt0 val of
        None \<Rightarrow> (Inl PyTypeError, s)
      | Some True \<Rightarrow> (Inl MustBeNonNegative, s)
      | Some False \<Rightarrow> push_engine ''display.max_columns'' val s)"

definition validate_display_max_rows :: "pyval \<Rightarrow> state \<Rightarrow> (reason + pyval) \<times> state" where
  "validate_display_max_rows val s =
     (case py_lt0 val of
        None \<Rightarrow> (Inl PyTypeError, s)
      | Some True \<Rightarrow> (Inl MustBeNonNegative, s)
      | Some False \<Rightarrow> push_engine ''display.max_rows'' val s)"

definition validate_html_table_schema :: "pyval \<Rightarrow> state \<Rightarrow> (reason + pyval) \<times> state" where
  "validate_html_table_schema val s = push_engine ''html.table_schema'' val s"

text \<open>The \<open>pre=True\<close> validator declared for a field, if any.\<close>

definition pre_validate :: "pyenv \<Rightarrow> string \<Rightarrow> pyval \<Rightarrow> state \<Rightarrow> (reason + pyval) \<times> state" where
  "pre_validate env key val s =
     (if key = ''RENDERABLE_OBJECTS'' then (validate_renderables env val, s)
      else if key = ''DISPLAY_MAX_COLUMNS'' then validate_display_max_columns val s
      else if key = ''DISPLAY_MAX_ROWS'' then validate_display_max_rows val s
      else if key = ''HTML_TABLE_SCHEMA'' then validate_html_table_schema val s
      else (Inr val, s))"

text \<open>
  pydantic's validation against the declared type. A value of the field's own type is kept;
  the enumeration accepts a member or a member's value; a set of types must hold classes
  only. For any other value the library's conversion is \<open>coerce_other\<close>.
\<close>

definition mode_of_value :: "string \<Rightarrow> DXDisplayMode option" where
  "mode_of_value v = find (\<lambda>m. mode_value m = v) [enhanced, simple, plain]"

fun is_type :: "pyval \<Rightarrow> bool" where
  "is_type (PType t) = True"
| "is_type v = False"

definition type_validate :: "pyenv \<Rightarrow> string \<Rightarrow> ftype \<Rightarrow> pyval \<Rightarrow> pyval option" where
  "type_validate env key ft v =
     (case ft of
        TInt \<Rightarrow> (case v of PInt i \<Rightarrow> Some v | _ \<Rightarrow> coerce_other env key v)
      | TBool \<Rightarrow> (case v of PBool b \<Rightarrow> Some v | _ \<Rightarrow> coerce_other env key v)
      | TStr \<Rightarrow> (case v of PStr x \<Rightarrow> Some v | _ \<Rightarrow> coerce_other env key v)
      | TFloat \<Rightarrow> (case v of PFloat q \<Rightarrow> Some v | _ \<Rightarrow> coerce_other env key v)
      | TSampling \<Rightarrow> (case v of PSampling m \<Rightarrow> Some v | _ \<Rightarrow> coerce_other env key v)
      | TMode \<Rightarrow>
          (case v of
             PMode m \<Rightarrow> Some v
           | PStr x \<Rightarrow> map_option PMode (mode_of_value x)
           | _ \<Rightarrow> None)
      | TTypeSet \<Rightarrow>
          (case v of
             PSet xs \<Rightarrow> if list_all is_type xs then Some v else None
           | _ \<Rightarrow> coerce_other env key v))"

text \<open>
  Assignment to a field of \<open>settings\<close> (\<open>validate_assignment = True\<close>): the field's
  validators run, and the field is written only if none of them failed.
\<close>

definition setattr_settings :: "pyenv \<Rightarrow> string \<Rightarrow> pyval \<Rightarrow> cmd" where
  "setattr_settings env key val s =
     (case map_of schema key of
        None \<Rightarrow> (Some (NotAValidSetting key), s)
      | Some ft \<Rightarrow>
         (case pre_validate env key val s of
            (Inl why, s1) \<Rightarrow> (Some (ValidationError key why), s1)
          | (Inr v1, s1) \<Rightarrow>
              (case type_validate env key ft v1 of
                 None \<Rightarrow> (Some (ValidationError key NotOfFieldType), s1)
               | Some v2 \<Rightarrow> (None, s1\<lparr>settings := (settings s1)(key := v2)\<rparr>))))"

section \<open>Mode Controller, Option Setter, Scoped Override Context\<close>

definition set_display_mode :: "pyenv \<Rightarrow> pyval \<Rightarrow> cmd" where
  "set_display_mode env mode s =
     and_then (setattr_settings env ''DISPLAY_MODE'' mode s)
       (\<lambda>s. if py_str env mode = mode_value enhanced then register env s
            else if py_str env mode = mode_value simple then deregister env s
            else if py_str env mode = mode_value plain then reset env s
            else (Some (NotASupportedDisplayMode mode), s))"

definition pd_options :: "(string \<times> string) list" where
  "pd_options =
    [(''DISPLAY_MAX_ROWS'', ''display.max_rows''),
     (''DISPLAY_MAX_COLUMNS'', ''display.max_columns''),
     (''HTML_TABLE_SCHEMA'', ''html.table_schema'')]"

definition set_option :: "pyenv \<Rightarrow> string \<Rightarrow> pyval \<Rightarrow> cmd" where
  "set_option env key0 val s =
     (let key = upper key0 in
      if key \<in> set field_names then
        and_then (and_then (and_then (setattr_settings env key val s)
          (\<lambda>s. case map_of pd_options key of
                 Some opt \<Rightarrow> pandas_set_option opt val s
               | None \<Rightarrow> (None, s)))
          (\<lambda>s. if key = ''DISPLAY_MODE'' then set_display_mode env val s else (None, s)))
          (\<lambda>s. if key = ''LOG_LEVEL'' then set_log_level val s else (None, s))
      else (Some (NotAValidSetting key), s))"

text \<open>A \<open>dict\<close> as the list of its items in insertion order.\<close>

fun dict_set :: "(string \<times> pyval) list \<Rightarrow> string \<Rightarrow> pyval \<Rightarrow> (string \<times> pyval) list" where
  "dict_set [] k v = [(k, v)]"
| "dict_set ((k', v') # d) k v = (if k' = k then (k, v) # d else (k', v') # dict_set d k v)"

definition upper_keys :: "(string \<times> pyval) list \<Rightarrow> (string \<times> pyval) list" where
  "upper_keys kw = foldl (\<lambda>d (k, v). dict_set d (upper k) v) [] kw"

definition dict_remove :: "string \<Rightarrow> (string \<times> pyval) list \<Rightarrow> (string \<times> pyval) list" where
  "dict_remove k d = filter (\<lambda>(k', v). k' \<noteq> k) d"

text \<open>\<open>settings.dict()\<close>.\<close>

definition settings_dict :: "state \<Rightarrow> (string \<times> pyval) list" where
  "settings_dict s = map (\<lambda>k. (k, settings s k)) field_names"

text \<open>\<open>for setting, value in items: set_option(setting, value)\<close>, left at the first raise.\<close>

fun set_options :: "pyenv \<Rightarrow> (string \<times> pyval) list \<Rightarrow> cmd" where
  "set_options env [] s = (None, s)"
| "set_options env ((setting, val) # items) s =
     and_then (set_option env setting val s) (set_options env items)"

text \<open>
  The part of \<open>settings_context\<close> before the \<open>try\<close>: the display mode popped from the
  overrides is applied if it is truthy.
\<close>

definition scope_mode :: "pyenv \<Rightarrow> (string \<times> pyval) list \<Rightarrow> cmd" where
  "scope_mode env option_kwargs s =
     (case map_of option_kwargs ''DISPLAY_MODE'' of
        None \<Rightarrow> (None, s)
      | Some display_mode \<Rightarrow>
          if truthy display_mode then set_display_mode env display_mode s else (None, s))"

text \<open>
  The \<open>finally\<close> block of \<open>settings_context\<close>, run on the outcome of the \<open>try\<close> block:
  an exception raised by the restoring loop replaces the one in flight.
\<close>

definition scope_exit :: "pyenv \<Rightarrow> (string \<times> pyval) list \<Rightarrow> exn option \<times> state \<Rightarrow> exn option \<times> state" where
  "scope_exit env orig_settings r =
     (case r of
        (e1, s1) \<Rightarrow>
          (case set_options env orig_settings s1 of
             (Some e2, s2) \<Rightarrow> (Some e2, s2)
           | (None, s2) \<Rightarrow> (e1, s2)))"

text \<open>
  \<open>with settings_context(**kw): body\<close>. The result is the exception that leaves the
  \<open>with\<close> statement, if any.
\<close>

definition settings_context :: "pyenv \<Rightarrow> (string \<times> pyval) list \<Rightarrow> cmd \<Rightarrow> cmd" where
  "settings_context env kw body s =
     (let orig_settings = settings_dict s;
          option_kwargs = upper_keys kw
      in case scope_mode env option_kwargs s of
           (Some e, s0) \<Rightarrow> (Some e, s0)
         | (None, s0) \<Rightarrow>
             scope_exit env orig_settings
               (and_then (set_options env (dict_remove ''DISPLAY_MODE'' option_kwargs) s0) body))"

text \<open>The state in which the body of the \<open>with\<close> statement starts, if it is reached.\<close>

definition scope_enter :: "pyenv \<Rightarrow> (string \<times> pyval) list \<Rightarrow> cmd" where
  "scope_enter env kw s =
     and_then (scope_mode env (upper_keys kw) s)
       (set_options env (dict_remove ''DISPLAY_MODE'' (upper_keys kw)))"

text \<open>\<open>set.update\<close>: the elements are added one by one.\<close>

fun set_update :: "pyval list \<Rightarrow> pyval list \<Rightarrow> exn option \<times> pyval list" where
  "set_update xs [] = (None, xs)"
| "set_update xs (y # ys) =
     (if hashable y then set_update (set_add xs y) ys else (Some UnhashableType, xs))"

definition add_renderable_type :: "pyval \<Rightarrow> cmd" where
  "add_renderable_type renderable_type s =
     (let items = (case renderable_type of PList xs \<Rightarrow> xs | _ \<Rightarrow> [renderable_type])
      in case settings s ''RENDERABLE_OBJECTS'' of
           PSet cur \<Rightarrow>
             (case set_update cur items of
                (e, new) \<Rightarrow> (e, s\<lparr>settings := (settings s)(''RENDERABLE_OBJECTS'' := PSet new)\<rparr>))
         | _ \<Rightarrow> (Some AttributeError, s))"

section \<open>The initial Configuration\<close>

text \<open>
  \<open>Settings()\<close> with no override from the environment: the declared defaults, which the
  validators of the three mirrored fields (\<open>always=True\<close>) push into the display engine.
\<close>

definition default_settings :: "(string \<times> pyval) list" where
  "default_settings =
    [(''DISPLAY_MAX_ROWS'', PInt 60),
     (''DISPLAY_MAX_COLUMNS'', PInt 20),
     (''HTML_TABLE_SCHEMA'', PBool False),
     (''MEDIA_TYPE'', PStr ''application/vnd.dataresource+json''),
     (''MAX_RENDER_SIZE_BYTES'', PInt (100 * (1024 * 1024))),
     (''RENDERABLE_OBJECTS'', PSet []),
     (''SAMPLING_FACTOR'', PFloat (1 / 10)),
     (''DISPLAY_MODE'', PMode simple),
     (''SAMPLING_METHOD'', PSampling ''random''),
     (''COLUMN_SAMPLING_METHOD'', PSampling ''random''),
     (''ROW_SAMPLING_METHOD'', PSampling ''random''),
     (''RANDOM_STATE'', PInt 12648430),
     (''RESET_INDEX_VALUES'', PBool False),
     (''FLATTEN_INDEX_VALUES'', PBool False),
     (''FLATTEN_COLUMN_VALUES'', PBool False),
     (''STRINGIFY_INDEX_VALUES'', PBool False),
     (''STRINGIFY_COLUMN_VALUES'', PBool False),
     (''DATETIME_STRING_FORMAT'', PStr ''%Y-%m-%dT%H:%M:%S.%f''),
     (''ENABLE_DATALINK'', PBool False),
     (''LOG_LEVEL'', PInt 30)]"

definition get_settings :: state where
  "get_settings =
     \<lparr>settings = (\<lambda>k. case map_of default_settings k of Some v \<Rightarrow> v | None \<Rightarrow> PNone),
      pd = (\<lambda>k. case map_of [(''display.max_rows'', PInt 60), (''display.max_columns'', PInt 20),
                               (''html.table_schema'', PBool False)] k of
                   Some v \<Rightarrow> v | None \<Rightarrow> PNone),
      logger_level = PInt 0,
      calls = []\<rparr>"

text \<open>
  A sample environment: \<open>str\<close> of a display mode is its value, pydantic converts nothing,
  \<open>eval\<close> knows the names \<open>int\<close> and \<open>str\<close>, and the formatter registry leaves the
  configuration alone.
\<close>

definition sample_env :: pyenv where
  "sample_env =
     \<lparr>obj_str = (\<lambda>v. case v of PMode m \<Rightarrow> mode_value m | _ \<Rightarrow> ''<object>''),
      coerce_other = (\<lambda>k v. None),
      eval_str = (\<lambda>v. case v of PStr n \<Rightarrow> (if n = ''int'' \<or> n = ''str'' then Some (PType n) else None)
                             | _ \<Rightarrow> None),
      formatter_effect = (\<lambda>a s. (None, s))\<rparr>"

section \<open>Well-formed configurations\<close>

text \<open>
  A value of the declared type of a field: what pydantic stores there. The set of
  renderable types holds classes, each once.
\<close>

definition well_typed :: "ftype \<Rightarrow> pyval \<Rightarrow> bool" where
  "well_typed ft v =
     (case ft of
        TInt \<Rightarrow> (case v of PInt i \<Rightarrow> True | _ \<Rightarrow> False)
      | TBool \<Rightarrow> (case v of PBool b \<Rightarrow> True | _ \<Rightarrow> False)
      | TStr \<Rightarrow> (case v of PStr x \<Rightarrow> True | _ \<Rightarrow> False)
      | TFloat \<Rightarrow> (case v of PFloat q \<Rightarrow> True | _ \<Rightarrow> False)
      | TSampling \<Rightarrow> (case v of PSampling m \<Rightarrow> True | _ \<Rightarrow> False)
      | TMode \<Rightarrow> (case v of PMode m \<Rightarrow> True | _ \<Rightarrow> False)
      | TTypeSet \<Rightarrow> (case v of PSet xs \<Rightarrow> list_all is_type xs \<and> distinct xs | _ \<Rightarrow> False))"

definition non_negative :: "pyval \<Rightarrow> bool" where
  "non_negative v = (case v of PInt i \<Rightarrow> 0 \<le> i | _ \<Rightarrow> False)"

text \<open>The invariant of a field: its declared type, and a row or column maximum is not negative.\<close>

definition valid_value :: "string \<Rightarrow> pyval \<Rightarrow> bool" where
  "valid_value k v =
     (case map_of schema k of
        None \<Rightarrow> False
      | Some ft \<Rightarrow>
          well_typed ft v \<and>
          (if k = ''DISPLAY_MAX_ROWS'' \<or> k = ''DISPLAY_MAX_COLUMNS'' then non_negative v else True))"

definition wf_config :: "state \<Rightarrow> bool" where
  "wf_config s = list_all (\<lambda>k. valid_value k (settings s k)) field_names"

text \<open>
  The assumption on \<open>dx.types\<close> under which a stored display mode can be applied again:
  \<open>str\<close> of a member of \<open>DXDisplayMode\<close> is the member's value.
\<close>

definition mode_str_is_value :: "pyenv \<Rightarrow> bool" where
  "mode_str_is_value env = list_all (\<lambda>m. obj_str env (PMode m) = mode_value m) [enhanced, simple, plain]"

text \<open>
  The assumption on \<open>dx.formatters\<close> under which a mode switch leaves the configuration
  alone: the three functions neither raise nor change the fields, the options of the
  display engine or the logger.
\<close>

definition registry_passive :: "pyenv \<Rightarrow> bool" where
  "registry_passive env = (\<forall>a s. formatter_effect env a s = (None, s))"


fun mode_action :: "DXDisplayMode \<Rightarrow> action" where
  "mode_action enhanced = Register"
| "mode_action simple = Deregister"
| "mode_action plain = Reset"

text \<open>What \<open>set_option\<close> does with a valid value of a field, as one state update.\<close>

definition effect :: "string \<Rightarrow> pyval \<Rightarrow> state \<Rightarrow> state" where
  "effect k v s =
     s\<lparr>settings := (settings s)(k := v),
       pd := (case map_of pd_options k of Some opt \<Rightarrow> (pd s)(opt := v) | None \<Rightarrow> pd s),
       logger_level := (if k = ''LOG_LEVEL'' then v else logger_level s),
       calls := (if k = ''DISPLAY_MODE''
                 then (case v of PMode m \<Rightarrow> calls s @ [mode_action m] | _ \<Rightarrow> calls s)
                 else calls s)\<rparr>"

text \<open>A loop of \<open>set_option\<close> calls with valid values, as state updates.\<close>

fun effects :: "(string \<times> pyval) list \<Rightarrow> state \<Rightarrow> state" where
  "effects [] s = s"
| "effects ((k, v) # items) s = effects items (effect k v s)"

definition valid_items :: "(string \<times> pyval) list \<Rightarrow> bool" where
  "valid_items items = list_all (\<lambda>(k, v). k \<in> set field_names \<and> valid_value k v) items"





text \<open>
  The value that an assignment to a field stores, if the validators accept it: the value
  part of \<open>setattr_settings\<close>, which does not depend on the state.
\<close>

definition pre_value :: "pyenv \<Rightarrow> string \<Rightarrow> pyval \<Rightarrow> reason + pyval" where
  "pre_value env key val = fst (pre_validate env key val get_settings)"





text \<open>
  Two further environments, to show what the restoring loop depends on. In the first,
  \<open>str\<close> of a display mode is what \<open>Enum.__str__\<close> of the standard library gives; in the
  second, each function of the formatter registry puts the row maximum back to 60.
\<close>

definition plain_enum_env :: pyenv where
  "plain_enum_env =
     sample_env\<lparr>obj_str := (\<lambda>v. case v of PMode m \<Rightarrow> ''DXDisplayMode.'' @ mode_value m
                                      | _ \<Rightarrow> ''<object>'')\<rparr>"

definition resetting_env :: pyenv where
  "resetting_env =
     sample_env\<lparr>formatter_effect :=
       (\<lambda>a s. (None, s\<lparr>settings := (settings s)(''DISPLAY_MAX_ROWS'' := PInt 60)\<rparr>))\<rparr>"

section \<open>Assignment of valid values\<close>

lemma upper_field: "k \<in> set field_names \<Longrightarrow> upper k = k"
  unfolding field_names_def schema_def by (auto; code_simp)


lemma type_validate_well_typed:
  "well_typed ft v \<Longrightarrow> type_validate env k ft v = Some v"
  by (cases ft; cases v) (simp_all add: well_typed_def type_validate_def)

lemma py_key_type: "is_type x \<Longrightarrow> py_key x = x"
  by (cases x) simp_all

lemma py_key_types: "list_all is_type xs \<Longrightarrow> py_key ` set xs = set xs"
  by (induction xs) (simp_all add: py_key_type)

lemma set_add_type:
  "is_type x \<Longrightarrow> list_all is_type xs \<Longrightarrow> set_add xs x = (if x \<in> set xs then xs else xs @ [x])"
  by (simp add: set_add_def py_key_type py_key_types)

lemma renderables_loop_types:
  "list_all is_type xs \<Longrightarrow> list_all is_type acc \<Longrightarrow> distinct (acc @ xs) \<Longrightarrow>
   renderables_loop env acc xs = Inr (acc @ xs)"
proof (induction xs arbitrary: acc)
  case Nil
  then show ?case by simp
next
  case (Cons x xs)
  then obtain t where x: "x = PType t" by (cases x) simp_all
  from Cons.prems have nin: "x \<notin> set acc" by auto
  have "renderables_loop env acc (x # xs) = renderables_loop env (acc @ [x]) xs"
    using Cons.prems nin by (simp add: x set_add_type)
  also have "\<dots> = Inr ((acc @ [x]) @ xs)"
    using Cons.prems by (intro Cons.IH) simp_all
  finally show ?case by simp
qed

lemma validate_renderables_types:
  "list_all is_type xs \<Longrightarrow> distinct xs \<Longrightarrow> validate_renderables env (PSet xs) = Inr (PSet xs)"
  using renderables_loop_types [of xs "[]" env] by (simp add: validate_renderables_def)

lemma mode_str: "mode_str_is_value env \<Longrightarrow> py_str env (PMode m) = mode_value m"
  by (cases m) (simp_all add: mode_str_is_value_def py_str_def)

lemma formatter_passive:
  "registry_passive env \<Longrightarrow> formatter_call env a s = (None, s\<lparr>calls := calls s @ [a]\<rparr>)"
  by (simp add: registry_passive_def formatter_call_def)

lemma formatter_call_calls: "calls (snd (formatter_call env a s)) = calls s @ [a]"
  by (simp add: formatter_call_def split: prod.splits)

lemma set_display_mode_member:
  "mode_str_is_value env \<Longrightarrow> registry_passive env \<Longrightarrow>
   set_display_mode env (PMode m) s =
     (None, s\<lparr>settings := (settings s)(''DISPLAY_MODE'' := PMode m), calls := calls s @ [mode_action m]\<rparr>)"
  by (cases m)
     (simp_all add: set_display_mode_def setattr_settings_def schema_def pre_validate_def
        type_validate_def and_then_def mode_str register_def deregister_def reset_def
        formatter_passive)

lemma setattr_plain:
  assumes "map_of schema k = Some ft" "well_typed ft v"
    "k \<noteq> ''RENDERABLE_OBJECTS''" "k \<noteq> ''DISPLAY_MAX_COLUMNS''" "k \<noteq> ''DISPLAY_MAX_ROWS''"
    "k \<noteq> ''HTML_TABLE_SCHEMA''"
  shows "setattr_settings env k v s = (None, s\<lparr>settings := (settings s)(k := v)\<rparr>)"
  using assms by (simp add: setattr_settings_def pre_validate_def type_validate_well_typed)

lemma setattr_rows:
  "0 \<le> i \<Longrightarrow> setattr_settings env ''DISPLAY_MAX_ROWS'' (PInt i) s =
     (None, s\<lparr>pd := (pd s)(''display.max_rows'' := PInt i),
              settings := (settings s)(''DISPLAY_MAX_ROWS'' := PInt i)\<rparr>)"
  by (simp add: setattr_settings_def schema_def pre_validate_def validate_display_max_rows_def
      push_engine_def pandas_set_option_def type_validate_def)

lemma setattr_columns:
  "0 \<le> i \<Longrightarrow> setattr_settings env ''DISPLAY_MAX_COLUMNS'' (PInt i) s =
     (None, s\<lparr>pd := (pd s)(''display.max_columns'' := PInt i),
              settings := (settings s)(''DISPLAY_MAX_COLUMNS'' := PInt i)\<rparr>)"
  by (simp add: setattr_settings_def schema_def pre_validate_def validate_display_max_columns_def
      push_engine_def pandas_set_option_def type_validate_def)

lemma setattr_schema:
  "setattr_settings env ''HTML_TABLE_SCHEMA'' (PBool b) s =
     (None, s\<lparr>pd := (pd s)(''html.table_schema'' := PBool b),
              settings := (settings s)(''HTML_TABLE_SCHEMA'' := PBool b)\<rparr>)"
  by (simp add: setattr_settings_def schema_def pre_validate_def validate_html_table_schema_def
      push_engine_def pandas_set_option_def type_validate_def)

lemma setattr_renderables:
  "list_all is_type xs \<Longrightarrow> distinct xs \<Longrightarrow>
   setattr_settings env ''RENDERABLE_OBJECTS'' (PSet xs) s =
     (None, s\<lparr>settings := (settings s)(''RENDERABLE_OBJECTS'' := PSet xs)\<rparr>)"
  by (simp add: setattr_settings_def schema_def pre_validate_def validate_renderables_types
      type_validate_def)

lemma set_option_field:
  "k \<in> set field_names \<Longrightarrow>
   set_option env k v s =
     and_then (and_then (and_then (setattr_settings env k v s)
       (\<lambda>s. case map_of pd_options k of
              Some opt \<Rightarrow> pandas_set_option opt v s
            | None \<Rightarrow> (None, s)))
       (\<lambda>s. if k = ''DISPLAY_MODE'' then set_display_mode env v s else (None, s)))
       (\<lambda>s. if k = ''LOG_LEVEL'' then set_log_level v s else (None, s))"
  by (simp add: set_option_def upper_field)

lemma set_option_valid:
  assumes env: "k = ''DISPLAY_MODE'' \<Longrightarrow> mode_str_is_value env \<and> registry_passive env"
    and k: "k \<in> set field_names" and v: "valid_value k v"
  shows "set_option env k v s = (None, effect k v s)"
proof -
  from v obtain ft where ft: "map_of schema k = Some ft" and wt: "well_typed ft v"
    by (auto simp: valid_value_def split: option.splits)
  note so = set_option_field [OF k]
  consider (rows) "k = ''DISPLAY_MAX_ROWS''" | (cols) "k = ''DISPLAY_MAX_COLUMNS''"
    | (html) "k = ''HTML_TABLE_SCHEMA''" | (rend) "k = ''RENDERABLE_OBJECTS''"
    | (mode) "k = ''DISPLAY_MODE''" | (log) "k = ''LOG_LEVEL''"
    | (other) "k \<noteq> ''DISPLAY_MAX_ROWS''" "k \<noteq> ''DISPLAY_MAX_COLUMNS''" "k \<noteq> ''HTML_TABLE_SCHEMA''"
        "k \<noteq> ''RENDERABLE_OBJECTS''" "k \<noteq> ''DISPLAY_MODE''" "k \<noteq> ''LOG_LEVEL''"
    by blast
  then show ?thesis
  proof cases
    case rows
    with v obtain i where "v = PInt i" "0 \<le> i"
      by (auto simp: valid_value_def schema_def non_negative_def split: pyval.splits)
    then show ?thesis unfolding so
      by (simp add: rows setattr_rows and_then_def pd_options_def
          pandas_set_option_def effect_def)
  next
    case cols
    with v obtain i where "v = PInt i" "0 \<le> i"
      by (auto simp: valid_value_def schema_def non_negative_def split: pyval.splits)
    then show ?thesis unfolding so
      by (simp add: cols setattr_columns and_then_def pd_options_def
          pandas_set_option_def effect_def)
  next
    case html
    with ft wt obtain b where "v = PBool b"
      by (auto simp: schema_def well_typed_def split: pyval.splits)
    then show ?thesis unfolding so
      by (simp add: html setattr_schema and_then_def pd_options_def
          pandas_set_option_def effect_def)
  next
    case rend
    with ft wt obtain xs where "v = PSet xs" "list_all is_type xs" "distinct xs"
      by (auto simp: schema_def well_typed_def split: pyval.splits)
    then show ?thesis unfolding so
      by (simp add: rend setattr_renderables and_then_def pd_options_def
          effect_def)
  next
    case mode
    with ft wt obtain m where vm: "v = PMode m"
      by (auto simp: schema_def well_typed_def split: pyval.splits)
    have "setattr_settings env ''DISPLAY_MODE'' (PMode m) s =
        (None, s\<lparr>settings := (settings s)(''DISPLAY_MODE'' := PMode m)\<rparr>)"
      by (rule setattr_plain [where ft = TMode]) (simp_all add: schema_def well_typed_def)
    from env mode have "mode_str_is_value env" "registry_passive env" by simp_all
    note sdm = set_display_mode_member [OF this]
    from \<open>setattr_settings env ''DISPLAY_MODE'' (PMode m) s =
        (None, s\<lparr>settings := (settings s)(''DISPLAY_MODE'' := PMode m)\<rparr>)\<close>
    show ?thesis unfolding so
      by (simp add: mode vm and_then_def pd_options_def sdm effect_def)
  next
    case log
    with ft wt obtain i where vi: "v = PInt i"
      by (auto simp: schema_def well_typed_def split: pyval.splits)
    have "setattr_settings env ''LOG_LEVEL'' (PInt i) s =
        (None, s\<lparr>settings := (settings s)(''LOG_LEVEL'' := PInt i)\<rparr>)"
      by (rule setattr_plain [where ft = TInt]) (simp_all add: schema_def well_typed_def)
    then show ?thesis unfolding so
      by (simp add: log vi and_then_def pd_options_def effect_def)
  next
    case other
    have "setattr_settings env k v s = (None, s\<lparr>settings := (settings s)(k := v)\<rparr>)"
      using ft wt other by (intro setattr_plain) simp_all
    then show ?thesis unfolding so using other
      by (simp add: and_then_def pd_options_def effect_def)
  qed
qed

section \<open>Loops of assignments\<close>

lemma set_options_valid:
  "(''DISPLAY_MODE'' \<in> fst ` set items \<Longrightarrow> mode_str_is_value env \<and> registry_passive env) \<Longrightarrow>
   valid_items items \<Longrightarrow>
   set_options env items s = (None, effects items s)"
proof (induction items arbitrary: s)
  case Nil
  then show ?case by simp
next
  case (Cons kv items)
  obtain k v where kv: "kv = (k, v)" by (cases kv)
  from Cons.prems have k: "k \<in> set field_names" and v: "valid_value k v"
    and items: "valid_items items"
    by (simp_all add: kv valid_items_def)
  have e: "k = ''DISPLAY_MODE'' \<Longrightarrow> mode_str_is_value env \<and> registry_passive env"
    using Cons.prems(1) by (simp add: kv)
  have "''DISPLAY_MODE'' \<in> fst ` set items \<Longrightarrow> mode_str_is_value env \<and> registry_passive env"
    using Cons.prems(1) by (simp add: kv)
  from Cons.IH [OF this items, of "effect k v s"] show ?case
    by (simp add: kv set_option_valid [OF e k v] and_then_def)
qed

lemma settings_effect: "settings (effect k v s) = (settings s)(k := v)"
  by (simp add: effect_def)













section \<open>The mode switch and the restoring loop\<close>

lemma mode_of_value_Some: "mode_of_value x = Some m \<Longrightarrow> x = mode_value m"
  by (auto simp: mode_of_value_def split: if_splits)

lemma mode_of_value_mode: "mode_of_value (mode_value m) = Some m"
  by (cases m) (simp_all add: mode_of_value_def)

lemma setattr_mode:
  "setattr_settings env ''DISPLAY_MODE'' v s =
     (case type_validate env ''DISPLAY_MODE'' TMode v of
        None \<Rightarrow> (Some (ValidationError ''DISPLAY_MODE'' NotOfFieldType), s)
      | Some v2 \<Rightarrow> (None, s\<lparr>settings := (settings s)(''DISPLAY_MODE'' := v2)\<rparr>))"
  by (simp add: setattr_settings_def schema_def pre_validate_def)

lemma dispatch_mode:
  "py_str env v = mode_value m \<Longrightarrow>
   (if py_str env v = mode_value enhanced then register env s
    else if py_str env v = mode_value simple then deregister env s
    else if py_str env v = mode_value plain then reset env s
    else (Some (NotASupportedDisplayMode v), s)) = formatter_call env (mode_action m) s"
  by (cases m) (simp_all add: register_def deregister_def reset_def)

lemma set_display_mode_name:
  "set_display_mode env (PStr (mode_value m)) s =
     formatter_call env (mode_action m) (s\<lparr>settings := (settings s)(''DISPLAY_MODE'' := PMode m)\<rparr>)"
proof -
  have "py_str env (PStr (mode_value m)) = mode_value m" by (simp add: py_str_def)
  from dispatch_mode [OF this] show ?thesis
    by (simp add: set_display_mode_def setattr_mode type_validate_def mode_of_value_mode and_then_def)
qed

lemma set_display_mode_enum:
  "mode_str_is_value env \<Longrightarrow>
   set_display_mode env (PMode m) s =
     formatter_call env (mode_action m) (s\<lparr>settings := (settings s)(''DISPLAY_MODE'' := PMode m)\<rparr>)"
proof -
  assume "mode_str_is_value env"
  then have "py_str env (PMode m) = mode_value m" by (rule mode_str)
  from dispatch_mode [OF this] show ?thesis
    by (simp add: set_display_mode_def setattr_mode type_validate_def and_then_def)
qed

lemma set_display_mode_string:
  "registry_passive env \<Longrightarrow>
   set_display_mode env (PStr (mode_value m)) s =
     (None, s\<lparr>settings := (settings s)(''DISPLAY_MODE'' := PMode m), calls := calls s @ [mode_action m]\<rparr>)"
  by (simp add: set_display_mode_name formatter_passive)

lemma set_display_mode_rejects:
  "type_validate env ''DISPLAY_MODE'' TMode v = None \<Longrightarrow>
   set_display_mode env v s = (Some (ValidationError ''DISPLAY_MODE'' NotOfFieldType), s)"
  by (simp add: set_display_mode_def setattr_mode and_then_def)

lemma type_validate_mode_cases:
  "type_validate env ''DISPLAY_MODE'' TMode v = None \<or>
   (\<exists>m. v = PMode m \<or> v = PStr (mode_value m))"
proof (cases v)
  case (PStr x)
  show ?thesis
  proof (cases "mode_of_value x")
    case None
    then show ?thesis by (simp add: PStr type_validate_def)
  next
    case (Some m)
    from mode_of_value_Some [OF this] show ?thesis by (auto simp: PStr)
  qed
qed (simp_all add: type_validate_def)









lemma wf_get_settings: "wf_config get_settings"
  by (simp add: wf_config_def get_settings_def field_names_def schema_def default_settings_def
      valid_value_def well_typed_def non_negative_def)

lemma sample_env_ok: "mode_str_is_value sample_env"
  by (simp add: mode_str_is_value_def sample_env_def)

lemma sample_env_passive: "registry_passive sample_env"
  by (simp add: registry_passive_def sample_env_def)


lemma upper_display_max_rows: "upper ''display_max_rows'' = ''DISPLAY_MAX_ROWS''"
  by code_simp

lemma upper_display_max_columns: "upper ''display_max_columns'' = ''DISPLAY_MAX_COLUMNS''"
  by code_simp

lemma upper_display_mode: "upper ''display_mode'' = ''DISPLAY_MODE''"
  by code_simp

section \<open>The Option Setter\<close>

text \<open>
  C2. For a negative integer and a name that normalises to the row maximum or to the
  column maximum, \<open>set_option\<close> raises the validation error of that field (the value
  must be non-negative) and leaves the whole state as it was: the stored field, the
  options of the display engine, and everything else.
\<close>

theorem set_option_negative:
  assumes "v < 0" and "upper key = ''DISPLAY_MAX_ROWS'' \<or> upper key = ''DISPLAY_MAX_COLUMNS''"
  shows "set_option env key (PInt v) s = (Some (ValidationError (upper key) MustBeNonNegative), s)"
  using assms
  by (auto simp: set_option_def field_names_def schema_def setattr_settings_def pre_validate_def
      validate_display_max_rows_def validate_display_max_columns_def and_then_def)

theorem set_option_negative_witness:
  "(-1 :: int) < 0 \<and> upper ''display_max_rows'' = ''DISPLAY_MAX_ROWS'' \<and>
   set_option sample_env ''display_max_rows'' (PInt (-1)) get_settings =
     (Some (ValidationError ''DISPLAY_MAX_ROWS'' MustBeNonNegative), get_settings)"
  using set_option_negative [of "-1" "''display_max_rows''" sample_env get_settings]
  by (simp add: upper_display_max_rows)

text \<open>
  C3. For a name whose upper-case form is not a declared field, \<open>set_option\<close> raises
  the error "not a valid setting" for that name, and the state after the call is the
  state before it: no field, engine option, formatter call or logger level has changed.
\<close>

theorem set_option_unknown:
  "upper key \<notin> set field_names \<Longrightarrow>
   set_option env key v s = (Some (NotAValidSetting (upper key)), s)"
  by (simp add: set_option_def)

theorem set_option_unknown_witness:
  "upper ''rows'' \<notin> set field_names \<and>
   set_option sample_env ''rows'' (PInt 5) get_settings =
     (Some (NotAValidSetting (upper ''rows'')), get_settings)"
proof -
  have "upper ''rows'' = ''ROWS''" by code_simp
  then have h: "upper ''rows'' \<notin> set field_names"
    by (simp add: field_names_def schema_def)
  from set_option_unknown [OF h] h show ?thesis by simp
qed

text \<open>
  C5. For an integer \<open>v \<ge> 0\<close> and a name that normalises to the row maximum (column
  maximum), \<open>set_option\<close> succeeds; afterwards the stored field is \<open>v\<close> and the row limit
  (column limit) of the display engine is \<open>v\<close>.
\<close>

theorem set_option_non_negative:
  assumes "0 \<le> v"
    and "(upper key, opt) = (''DISPLAY_MAX_ROWS'', ''display.max_rows'') \<or>
         (upper key, opt) = (''DISPLAY_MAX_COLUMNS'', ''display.max_columns'')"
  shows "fst (set_option env key (PInt v) s) = None \<and>
         settings (snd (set_option env key (PInt v) s)) (upper key) = PInt v \<and>
         pd (snd (set_option env key (PInt v) s)) opt = PInt v"
  using assms
  by (auto simp: set_option_def field_names_def schema_def setattr_rows setattr_columns
      and_then_def pd_options_def pandas_set_option_def)

theorem set_option_non_negative_witness:
  "(0 :: int) \<le> 5 \<and> upper ''display_max_columns'' = ''DISPLAY_MAX_COLUMNS'' \<and>
   fst (set_option sample_env ''display_max_columns'' (PInt 5) get_settings) = None \<and>
   settings (snd (set_option sample_env ''display_max_columns'' (PInt 5) get_settings))
     ''DISPLAY_MAX_COLUMNS'' = PInt 5 \<and>
   pd (snd (set_option sample_env ''display_max_columns'' (PInt 5) get_settings))
     ''display.max_columns'' = PInt 5"
  using set_option_non_negative [of 5 "''display_max_columns''" "''display.max_columns''"
      sample_env get_settings]
  by (simp add: upper_display_max_columns)

section \<open>What a call leaves untouched\<close>

lemma and_then_inv:
  "I (snd r) \<Longrightarrow> (\<And>t. I t \<Longrightarrow> I (snd (g t))) \<Longrightarrow> I (snd (and_then r g))"
  by (cases r; cases "fst r") (auto simp: and_then_def)

lemma pandas_settings: "settings (snd (pandas_set_option k v s)) = settings s"
  by (simp add: pandas_set_option_def)

lemma pandas_calls: "calls (snd (pandas_set_option k v s)) = calls s"
  by (simp add: pandas_set_option_def)

lemma push_engine_settings: "settings (snd (push_engine k v s)) = settings s"
  by (simp add: push_engine_def pandas_set_option_def)

lemma push_engine_calls: "calls (snd (push_engine k v s)) = calls s"
  by (simp add: push_engine_def pandas_set_option_def)

lemma pre_validate_settings: "settings (snd (pre_validate env k v s)) = settings s"
  by (simp add: pre_validate_def validate_display_max_columns_def validate_display_max_rows_def
      validate_html_table_schema_def push_engine_settings split: option.splits bool.splits)

lemma pre_validate_calls: "calls (snd (pre_validate env k v s)) = calls s"
  by (simp add: pre_validate_def validate_display_max_columns_def validate_display_max_rows_def
      validate_html_table_schema_def push_engine_calls split: option.splits bool.splits)

lemma setattr_calls: "calls (snd (setattr_settings env k v s)) = calls s"
proof -
  obtain r t where p: "pre_validate env k v s = (r, t)" by (cases "pre_validate env k v s")
  with pre_validate_calls [of env k v s] have "calls t = calls s" by simp
  then show ?thesis
    by (simp add: setattr_settings_def p split: option.splits sum.splits)
qed

lemma setattr_other:
  "k' \<noteq> k \<Longrightarrow> settings (snd (setattr_settings env k v s)) k' = settings s k'"
proof -
  assume n: "k' \<noteq> k"
  obtain r t where p: "pre_validate env k v s = (r, t)" by (cases "pre_validate env k v s")
  with pre_validate_settings [of env k v s] have "settings t = settings s" by simp
  with n show ?thesis
    by (simp add: setattr_settings_def p split: option.splits sum.splits)
qed

lemma log_level_settings: "settings (snd (set_log_level v s)) = settings s"
  by (cases v) (simp_all split: option.splits)

lemma log_level_calls: "calls (snd (set_log_level v s)) = calls s"
  by (cases v) (simp_all split: option.splits)

lemma set_option_no_mode:
  assumes "upper key \<noteq> ''DISPLAY_MODE''"
  shows "settings (snd (set_option env key v s)) ''DISPLAY_MODE'' = settings s ''DISPLAY_MODE'' \<and>
         calls (snd (set_option env key v s)) = calls s"
proof (cases "upper key \<in> set field_names")
  case False
  then show ?thesis by (simp add: set_option_def)
next
  case True
  define I where "I t \<longleftrightarrow> settings t ''DISPLAY_MODE'' = settings s ''DISPLAY_MODE'' \<and> calls t = calls s" for t :: state
  note step = and_then_inv [where I = I]
  have 1: "I (snd (setattr_settings env (upper key) v s))"
    using assms by (simp add: I_def setattr_calls setattr_other)
  have 2: "I (snd (and_then (setattr_settings env (upper key) v s)
          (\<lambda>s. case map_of pd_options (upper key) of
                 Some opt \<Rightarrow> pandas_set_option opt v s
               | None \<Rightarrow> (None, s))))"
    by (rule step [OF 1]) (simp add: I_def pandas_settings pandas_calls split: option.splits)
  have 3: "I (snd (and_then (and_then (setattr_settings env (upper key) v s)
          (\<lambda>s. case map_of pd_options (upper key) of
                 Some opt \<Rightarrow> pandas_set_option opt v s
               | None \<Rightarrow> (None, s)))
          (\<lambda>s. if upper key = ''DISPLAY_MODE'' then set_display_mode env v s else (None, s))))"
    by (rule step [OF 2]) (simp add: assms)
  have 4: "I (snd (and_then (and_then (and_then (setattr_settings env (upper key) v s)
          (\<lambda>s. case map_of pd_options (upper key) of
                 Some opt \<Rightarrow> pandas_set_option opt v s
               | None \<Rightarrow> (None, s)))
          (\<lambda>s. if upper key = ''DISPLAY_MODE'' then set_display_mode env v s else (None, s)))
          (\<lambda>s. if upper key = ''LOG_LEVEL'' then set_log_level v s else (None, s))))"
    by (rule step [OF 3]) (simp add: I_def log_level_settings log_level_calls)
  with True show ?thesis by (simp add: set_option_def Let_def I_def)
qed

lemma set_options_no_mode:
  "\<forall>k \<in> fst ` set items. upper k \<noteq> ''DISPLAY_MODE'' \<Longrightarrow>
   settings (snd (set_options env items s)) ''DISPLAY_MODE'' = settings s ''DISPLAY_MODE'' \<and>
   calls (snd (set_options env items s)) = calls s"
proof (induction items arbitrary: s)
  case Nil
  then show ?case by simp
next
  case (Cons kv items)
  obtain k v where kv: "kv = (k, v)" by (cases kv)
  from Cons.prems have k: "upper k \<noteq> ''DISPLAY_MODE''"
    and r: "\<forall>k \<in> fst ` set items. upper k \<noteq> ''DISPLAY_MODE''" by (simp_all add: kv)
  define I where "I t \<longleftrightarrow> settings t ''DISPLAY_MODE'' = settings s ''DISPLAY_MODE'' \<and> calls t = calls s" for t :: state
  have 1: "I (snd (set_option env k v s))"
    using set_option_no_mode [OF k] by (simp add: I_def)
  have "I (snd (and_then (set_option env k v s) (set_options env items)))"
  proof (rule and_then_inv [where I = I, OF 1])
    fix t assume "I t"
    with Cons.IH [OF r, of t] show "I (snd (set_options env items t))" by (simp add: I_def)
  qed
  then show ?case by (simp add: kv I_def)
qed

lemma upper_char_idem: "upper_char (upper_char c) = upper_char c"
proof (cases "97 \<le> (of_char c :: nat) \<and> (of_char c :: nat) \<le> 122")
  case True
  then have "of_char c - 32 < (256 :: nat)" by linarith
  then have "(of_char (char_of (of_char c - 32 :: nat)) :: nat) = of_char c - 32"
    by simp
  moreover have "\<not> (97 \<le> (of_char c :: nat) - 32 \<and> (of_char c :: nat) - 32 \<le> 122)"
    using True by linarith
  ultimately show ?thesis using True by (auto simp: upper_char_def Let_def)
next
  case False
  then have "upper_char c = c" by (auto simp: upper_char_def Let_def)
  then show ?thesis by simp
qed

lemma upper_idem: "upper (upper k) = upper k"
  by (simp add: upper_def upper_char_idem)

lemma keys_dict_set: "fst ` set (dict_set d k v) = insert k (fst ` set d)"
  by (induction d k v rule: dict_set.induct) auto

lemma keys_foldl_dict_set:
  "fst ` set (foldl (\<lambda>d (k, v). dict_set d (upper k) v) d0 kw) = fst ` set d0 \<union> upper ` fst ` set kw"
proof (induction kw arbitrary: d0)
  case Nil
  then show ?case by simp
next
  case (Cons kv kw)
  obtain k v where kv: "kv = (k, v)" by (cases kv)
  show ?case using Cons.IH [of "dict_set d0 (upper k) v"]
    by (simp add: kv keys_dict_set)
qed

lemma keys_upper_keys: "fst ` set (upper_keys kw) = upper ` fst ` set kw"
  by (simp add: upper_keys_def keys_foldl_dict_set)

lemma keys_rest:
  "\<forall>k \<in> fst ` set (dict_remove ''DISPLAY_MODE'' (upper_keys kw)). upper k \<noteq> ''DISPLAY_MODE''"
proof
  fix k assume "k \<in> fst ` set (dict_remove ''DISPLAY_MODE'' (upper_keys kw))"
  then have "k \<in> fst ` set (upper_keys kw)" "k \<noteq> ''DISPLAY_MODE''"
    by (auto simp: dict_remove_def)
  then show "upper k \<noteq> ''DISPLAY_MODE''"
    by (auto simp: keys_upper_keys upper_idem)
qed


lemma settings_context_enter:
  "scope_enter env kw s = (None, t) \<Longrightarrow>
   settings_context env kw body s = scope_exit env (settings_dict s) (body t)"
  by (cases "scope_mode env (upper_keys kw) s"; cases "fst (scope_mode env (upper_keys kw) s)")
     (auto simp: scope_enter_def settings_context_def and_then_def)




section \<open>The display mode among the overrides\<close>

text \<open>
  C10. When the overrides hold a display-mode key (after normalisation of the names) whose
  value is falsy, \<open>settings_context\<close> drops it: the step before the \<open>try\<close> neither
  raises nor changes the state, the key is not in the batch that the loop applies, and in
  the state in which the body starts (the state reached by entering the scope) the display
  mode is the one before the call and no call to the formatter registry has been made.
\<close>

theorem falsy_display_mode_discarded:
  assumes "map_of (upper_keys kw) ''DISPLAY_MODE'' = Some v" and "\<not> truthy v"
  shows "scope_mode env (upper_keys kw) s = (None, s) \<and>
         ''DISPLAY_MODE'' \<notin> fst ` set (dict_remove ''DISPLAY_MODE'' (upper_keys kw)) \<and>
         scope_enter env kw s = set_options env (dict_remove ''DISPLAY_MODE'' (upper_keys kw)) s \<and>
         settings (snd (scope_enter env kw s)) ''DISPLAY_MODE'' = settings s ''DISPLAY_MODE'' \<and>
         calls (snd (scope_enter env kw s)) = calls s \<and>
         (\<forall>body t. scope_enter env kw s = (None, t) \<longrightarrow>
            settings_context env kw body s = scope_exit env (settings_dict s) (body t))"
proof -
  have b: "\<forall>body t. scope_enter env kw s = (None, t) \<longrightarrow>
            settings_context env kw body s = scope_exit env (settings_dict s) (body t)"
    using settings_context_enter by blast
  have m: "scope_mode env (upper_keys kw) s = (None, s)"
    using assms by (simp add: scope_mode_def)
  then have e: "scope_enter env kw s = set_options env (dict_remove ''DISPLAY_MODE'' (upper_keys kw)) s"
    by (simp add: scope_enter_def and_then_def)
  have n: "''DISPLAY_MODE'' \<notin> fst ` set (dict_remove ''DISPLAY_MODE'' (upper_keys kw))"
    by (auto simp: dict_remove_def)
  from set_options_no_mode [OF keys_rest [of kw], of env s] m e n b show ?thesis by simp
qed

theorem falsy_display_mode_discarded_witness:
  "map_of (upper_keys [(''display_mode'', PStr ''''), (''display_max_rows'', PInt 5)]) ''DISPLAY_MODE'' = Some (PStr '''') \<and>
   \<not> truthy (PStr '''') \<and>
   scope_mode sample_env (upper_keys [(''display_mode'', PStr ''''), (''display_max_rows'', PInt 5)]) get_settings
     = (None, get_settings) \<and>
   settings (snd (scope_enter sample_env [(''display_mode'', PStr ''''), (''display_max_rows'', PInt 5)] get_settings))
     ''DISPLAY_MODE'' = PMode simple"
proof -
  have u: "upper_keys [(''display_mode'', PStr ''''), (''display_max_rows'', PInt 5)] =
      [(''DISPLAY_MODE'', PStr ''''), (''DISPLAY_MAX_ROWS'', PInt 5)]"
    by (simp add: upper_keys_def upper_display_mode upper_display_max_rows)
  have h: "map_of (upper_keys [(''display_mode'', PStr ''''), (''display_max_rows'', PInt 5)]) ''DISPLAY_MODE'' = Some (PStr '''')"
    by (simp add: u)
  have t: "\<not> truthy (PStr '''')" by simp
  have g: "settings get_settings ''DISPLAY_MODE'' = PMode simple"
    by (simp add: get_settings_def default_settings_def)
  from falsy_display_mode_discarded [OF h t, of sample_env get_settings] h t g show ?thesis
    by metis
qed

lemma py_key_eq_type: "py_key y = PType t \<longleftrightarrow> y = PType t"
  by (cases y) auto

lemma set_set_add_type: "is_type x \<Longrightarrow> set (set_add xs x) = insert x (set xs)"
proof -
  assume "is_type x"
  then obtain t where x: "x = PType t" by (cases x) simp_all
  have "py_key x \<in> py_key ` set xs \<longleftrightarrow> x \<in> set xs"
  proof
    assume "py_key x \<in> py_key ` set xs"
    then obtain y where y: "y \<in> set xs" "py_key y = PType t" by (auto simp: x)
    then have "y = PType t" by (simp add: py_key_eq_type)
    with y show "x \<in> set xs" by (simp add: x)
  next
    assume "x \<in> set xs"
    then show "py_key x \<in> py_key ` set xs" by simp
  qed
  then show ?thesis by (auto simp: set_add_def)
qed

lemma is_type_hashable: "is_type x \<Longrightarrow> hashable x"
  by (cases x) simp_all

lemma set_update_types:
  "list_all is_type L \<Longrightarrow> \<exists>new. set_update S L = (None, new) \<and> set new = set S \<union> set L"
proof (induction L arbitrary: S)
  case Nil
  then show ?case by simp
next
  case (Cons x L)
  then have x: "is_type x" and L: "list_all is_type L" by simp_all
  from Cons.IH [OF L, of "set_add S x"] obtain new where
    "set_update (set_add S x) L = (None, new)" "set new = set (set_add S x) \<union> set L" by blast
  with x show ?case by (simp add: is_type_hashable set_set_add_type)
qed

section \<open>The Type Registry\<close>

text \<open>
  C8. When the renderable-type field holds the set \<open>S\<close> and \<open>L\<close> is a list of types,
  \<open>add_renderable_type(L)\<close> returns normally, the field then holds a set whose elements
  are those of \<open>S\<close> and those of \<open>L\<close>, and nothing else in the state has changed.
\<close>

theorem add_renderable_type_union:
  assumes "settings s ''RENDERABLE_OBJECTS'' = PSet S" and "list_all is_type L"
  shows "\<exists>new. add_renderable_type (PList L) s =
           (None, s\<lparr>settings := (settings s)(''RENDERABLE_OBJECTS'' := PSet new)\<rparr>) \<and>
         set new = set S \<union> set L"
proof -
  from set_update_types [OF assms(2), of S] obtain new where
    "set_update S L = (None, new)" "set new = set S \<union> set L" by blast
  with assms(1) show ?thesis by (auto simp: add_renderable_type_def)
qed

theorem add_renderable_type_union_witness:
  "settings get_settings ''RENDERABLE_OBJECTS'' = PSet [] \<and>
   list_all is_type [PType ''int'', PType ''str''] \<and>
   (\<exists>new. add_renderable_type (PList [PType ''int'', PType ''str'']) get_settings =
           (None, get_settings\<lparr>settings := (settings get_settings)(''RENDERABLE_OBJECTS'' := PSet new)\<rparr>) \<and>
         set new = {PType ''int'', PType ''str''})"
proof -
  have a: "settings get_settings ''RENDERABLE_OBJECTS'' = PSet []"
    by (simp add: get_settings_def default_settings_def)
  have b: "list_all is_type [PType ''int'', PType ''str'']" by simp
  from add_renderable_type_union [OF a b] a b show ?thesis by simp
qed


















section \<open>The Mode Controller\<close>

text \<open>
  C4 (amended). For each of the three modes, \<open>set_display_mode\<close> with the mode's name
  stores the mode and makes exactly one call to the formatter registry: \<open>register\<close> for
  \<open>enhanced\<close>, \<open>deregister\<close> for \<open>simple\<close>, \<open>reset\<close> for \<open>plain\<close>; the outcome is that of
  this call on the state with the mode stored, which is the state with the mode stored and
  the call recorded when the registry leaves the configuration alone. With the member of
  the enumeration it does the same when \<open>str\<close> of a member is its value. For a value that
  is neither a member nor the value of one, the assignment to the field raises the
  validation error of the store, before the dispatch: nothing is stored and no call is made.
\<close>

theorem set_display_mode_dispatch:
  "set_display_mode env (PStr (mode_value m)) s =
     formatter_call env (mode_action m) (s\<lparr>settings := (settings s)(''DISPLAY_MODE'' := PMode m)\<rparr>) \<and>
   calls (snd (set_display_mode env (PStr (mode_value m)) s)) = calls s @ [mode_action m] \<and>
   (registry_passive env \<longrightarrow>
      set_display_mode env (PStr (mode_value m)) s =
        (None, s\<lparr>settings := (settings s)(''DISPLAY_MODE'' := PMode m),
                 calls := calls s @ [mode_action m]\<rparr>)) \<and>
   (mode_str_is_value env \<longrightarrow>
      set_display_mode env (PMode m) s =
        formatter_call env (mode_action m) (s\<lparr>settings := (settings s)(''DISPLAY_MODE'' := PMode m)\<rparr>) \<and>
      calls (snd (set_display_mode env (PMode m) s)) = calls s @ [mode_action m] \<and>
      (registry_passive env \<longrightarrow>
         set_display_mode env (PMode m) s =
           (None, s\<lparr>settings := (settings s)(''DISPLAY_MODE'' := PMode m),
                    calls := calls s @ [mode_action m]\<rparr>))) \<and>
   ((\<forall>m'. v \<noteq> PMode m' \<and> v \<noteq> PStr (mode_value m')) \<longrightarrow>
      set_display_mode env v s = (Some (ValidationError ''DISPLAY_MODE'' NotOfFieldType), s)) \<and>
   mode_action enhanced = Register \<and> mode_action simple = Deregister \<and> mode_action plain = Reset"
proof -
  have r: "(\<forall>m'. v \<noteq> PMode m' \<and> v \<noteq> PStr (mode_value m')) \<longrightarrow>
      set_display_mode env v s = (Some (ValidationError ''DISPLAY_MODE'' NotOfFieldType), s)"
    using type_validate_mode_cases [of env v] set_display_mode_rejects [of env v s] by blast
  have n: "calls (snd (set_display_mode env (PStr (mode_value m)) s)) = calls s @ [mode_action m]"
    by (simp add: set_display_mode_name formatter_call_calls)
  have e: "mode_str_is_value env \<longrightarrow>
      calls (snd (set_display_mode env (PMode m) s)) = calls s @ [mode_action m]"
    by (simp add: set_display_mode_enum formatter_call_calls)
  from r n e show ?thesis
    using set_display_mode_name [of env m s] set_display_mode_enum [of env m s]
      set_display_mode_string [of env m s] set_display_mode_member [of env m s]
    by simp
qed

theorem set_display_mode_dispatch_witness:
  "mode_str_is_value sample_env \<and> registry_passive sample_env \<and>
   (\<forall>m'. PStr ''fancy'' \<noteq> PMode m' \<and> PStr ''fancy'' \<noteq> PStr (mode_value m')) \<and>
   calls (snd (set_display_mode sample_env (PStr ''enhanced'') get_settings)) = [Register] \<and>
   calls (snd (set_display_mode sample_env (PMode plain) get_settings)) = [Reset] \<and>
   set_display_mode sample_env (PStr ''fancy'') get_settings =
     (Some (ValidationError ''DISPLAY_MODE'' NotOfFieldType), get_settings)"
proof -
  have f: "\<forall>m'. PStr ''fancy'' \<noteq> PMode m' \<and> PStr ''fancy'' \<noteq> PStr (mode_value m')"
  proof
    fix m' show "PStr ''fancy'' \<noteq> PMode m' \<and> PStr ''fancy'' \<noteq> PStr (mode_value m')"
      by (cases m') simp_all
  qed
  have c: "calls get_settings = []" by (simp add: get_settings_def)
  from set_display_mode_dispatch [of sample_env enhanced get_settings "PStr ''fancy''"]
    set_display_mode_dispatch [of sample_env plain get_settings "PStr ''fancy''"]
    f c sample_env_ok sample_env_passive
  show ?thesis by (simp add: formatter_call_calls)
qed

text \<open>
  C4 as stated fails on the error: for \<open>"fancy"\<close> the call raises the validation error
  of the field, not the error "is not a supported display mode".
\<close>

theorem set_display_mode_unknown_value:
  "fst (set_display_mode sample_env (PStr ''fancy'') get_settings) =
     Some (ValidationError ''DISPLAY_MODE'' NotOfFieldType) \<and>
   fst (set_display_mode sample_env (PStr ''fancy'') get_settings) \<noteq>
     Some (NotASupportedDisplayMode (PStr ''fancy''))"
proof -
  have "type_validate sample_env ''DISPLAY_MODE'' TMode (PStr ''fancy'') = None"
    by (simp add: type_validate_def mode_of_value_def)
  from set_display_mode_rejects [OF this, of get_settings] show ?thesis by simp
qed










lemma set_options_append:
  "set_options env (xs @ ys) s = and_then (set_options env xs s) (set_options env ys)"
proof (induction xs arbitrary: s)
  case Nil
  then show ?case by (simp add: and_then_def)
next
  case (Cons kv xs)
  obtain k v where kv: "kv = (k, v)" by (cases kv)
  obtain r t where st: "set_option env k v s = (r, t)" by (cases "set_option env k v s")
  show ?case using Cons.IH [of t]
    by (cases r) (simp_all add: kv st and_then_def)
qed




lemma upper_random_state: "upper ''random_state'' = ''RANDOM_STATE''"
  by code_simp


section \<open>Scoped overrides restore the Configuration\<close>




section \<open>Nested scopes\<close>








lemma pre_value_plain:
  assumes "k \<noteq> ''DISPLAY_MAX_ROWS''" "k \<noteq> ''DISPLAY_MAX_COLUMNS''" "k \<noteq> ''RENDERABLE_OBJECTS''"
    "pre_value env k v = Inr v1"
  shows "v1 = v"
  using assms
  by (auto simp: pre_value_def pre_validate_def validate_html_table_schema_def push_engine_def
      pandas_set_option_def split: if_splits)


































lemma random_state_scope:
  "scope_enter env [(''random_state'', PInt i)] s =
     (None, effect ''RANDOM_STATE'' (PInt i) s)"
proof -
  have "set_option env ''RANDOM_STATE'' (PInt i) s =
      (None, effect ''RANDOM_STATE'' (PInt i) s)"
    by (rule set_option_valid)
       (simp_all add: field_names_def schema_def valid_value_def well_typed_def)
  then show ?thesis
    by (simp add: scope_enter_def upper_keys_def upper_random_state scope_mode_def and_then_def
        dict_remove_def)
qed



section \<open>What the restoring loop depends on\<close>

lemma settings_dict_split_mode:
  "settings_dict s0 =
     map (\<lambda>k. (k, settings s0 k))
       [''DISPLAY_MAX_ROWS'', ''DISPLAY_MAX_COLUMNS'', ''HTML_TABLE_SCHEMA'', ''MEDIA_TYPE'',
        ''MAX_RENDER_SIZE_BYTES'', ''RENDERABLE_OBJECTS'', ''SAMPLING_FACTOR''] @
     (''DISPLAY_MODE'', settings s0 ''DISPLAY_MODE'') #
     map (\<lambda>k. (k, settings s0 k))
       [''SAMPLING_METHOD'', ''COLUMN_SAMPLING_METHOD'', ''ROW_SAMPLING_METHOD'', ''RANDOM_STATE'',
        ''RESET_INDEX_VALUES'', ''FLATTEN_INDEX_VALUES'', ''FLATTEN_COLUMN_VALUES'',
        ''STRINGIFY_INDEX_VALUES'', ''STRINGIFY_COLUMN_VALUES'', ''DATETIME_STRING_FORMAT'',
        ''ENABLE_DATALINK'', ''LOG_LEVEL'']"
  by (simp add: settings_dict_def field_names_def schema_def)

lemma wf_effect:
  "wf_config s \<Longrightarrow> valid_value k v \<Longrightarrow> wf_config (effect k v s)"
  by (simp add: wf_config_def list_all_iff settings_effect)

lemma valid_items_sub:
  "wf_config s0 \<Longrightarrow> set ks \<subseteq> set field_names \<Longrightarrow>
   valid_items (map (\<lambda>k. (k, settings s0 k)) ks)"
  by (auto simp: wf_config_def valid_items_def list_all_iff)

text \<open>
  The restoring loop from a well-formed configuration, whatever the environment: the
  fields declared before the display mode are written back, then \<open>set_option\<close> is called
  for the display mode, and, if that call does not raise, for the fields declared after it.
\<close>

lemma restore_around_mode:
  assumes "wf_config s0"
  shows "set_options env (settings_dict s0) s1 =
     and_then (set_option env ''DISPLAY_MODE'' (settings s0 ''DISPLAY_MODE'')
        (effects (map (\<lambda>k. (k, settings s0 k))
           [''DISPLAY_MAX_ROWS'', ''DISPLAY_MAX_COLUMNS'', ''HTML_TABLE_SCHEMA'', ''MEDIA_TYPE'',
            ''MAX_RENDER_SIZE_BYTES'', ''RENDERABLE_OBJECTS'', ''SAMPLING_FACTOR'']) s1))
       (\<lambda>t. (None, effects (map (\<lambda>k. (k, settings s0 k))
           [''SAMPLING_METHOD'', ''COLUMN_SAMPLING_METHOD'', ''ROW_SAMPLING_METHOD'', ''RANDOM_STATE'',
            ''RESET_INDEX_VALUES'', ''FLATTEN_INDEX_VALUES'', ''FLATTEN_COLUMN_VALUES'',
            ''STRINGIFY_INDEX_VALUES'', ''STRINGIFY_COLUMN_VALUES'', ''DATETIME_STRING_FORMAT'',
            ''ENABLE_DATALINK'', ''LOG_LEVEL'']) t))"
proof -
  let ?pre = "map (\<lambda>k. (k, settings s0 k))
       [''DISPLAY_MAX_ROWS'', ''DISPLAY_MAX_COLUMNS'', ''HTML_TABLE_SCHEMA'', ''MEDIA_TYPE'',
        ''MAX_RENDER_SIZE_BYTES'', ''RENDERABLE_OBJECTS'', ''SAMPLING_FACTOR'']"
  let ?post = "map (\<lambda>k. (k, settings s0 k))
       [''SAMPLING_METHOD'', ''COLUMN_SAMPLING_METHOD'', ''ROW_SAMPLING_METHOD'', ''RANDOM_STATE'',
        ''RESET_INDEX_VALUES'', ''FLATTEN_INDEX_VALUES'', ''FLATTEN_COLUMN_VALUES'',
        ''STRINGIFY_INDEX_VALUES'', ''STRINGIFY_COLUMN_VALUES'', ''DATETIME_STRING_FORMAT'',
        ''ENABLE_DATALINK'', ''LOG_LEVEL'']"
  have vpre: "valid_items ?pre"
    by (rule valid_items_sub [OF assms]) (simp add: field_names_def schema_def)
  have vpost: "valid_items ?post"
    by (rule valid_items_sub [OF assms]) (simp add: field_names_def schema_def)
  have p: "set_options env ?pre s1 = (None, effects ?pre s1)"
    by (rule set_options_valid [OF _ vpre]) simp
  have q: "\<And>t. set_options env ?post t = (None, effects ?post t)"
    by (rule set_options_valid [OF _ vpost]) simp
  have "set_options env (settings_dict s0) s1 =
      and_then (set_options env ?pre s1)
        (set_options env ((''DISPLAY_MODE'', settings s0 ''DISPLAY_MODE'') # ?post))"
    by (subst settings_dict_split_mode) (rule set_options_append)
  also have "\<dots> = set_options env ((''DISPLAY_MODE'', settings s0 ''DISPLAY_MODE'') # ?post)
      (effects ?pre s1)"
    unfolding p by (simp add: and_then_def)
  also have "\<dots> = and_then (set_option env ''DISPLAY_MODE'' (settings s0 ''DISPLAY_MODE'')
        (effects ?pre s1)) (set_options env ?post)"
    by (rule set_options.simps(2))
  also have "set_options env ?post = (\<lambda>t. (None, effects ?post t))"
    using q by blast
  finally show ?thesis .
qed

lemma set_option_mode_plain_enum:
  "set_option plain_enum_env ''DISPLAY_MODE'' (PMode m) t =
     (Some (NotASupportedDisplayMode (PMode m)),
      t\<lparr>settings := (settings t)(''DISPLAY_MODE'' := PMode m)\<rparr>)"
proof -
  have f: "''DISPLAY_MODE'' \<in> set field_names" by (simp add: field_names_def schema_def)
  show ?thesis
    by (cases m)
       (simp_all add: set_option_field [OF f] setattr_mode type_validate_def pd_options_def
          and_then_def set_display_mode_def py_str_def plain_enum_env_def)
qed

text \<open>
  When \<open>str\<close> of a display mode is not its value, the restoring loop raises at the display
  mode, and a field declared after it keeps its overridden value.
\<close>

lemma restore_needs_mode_str:
  "wf_config get_settings \<and> registry_passive plain_enum_env \<and>
   fst (settings_context plain_enum_env [(''random_state'', PInt 5)] (\<lambda>s. (None, s)) get_settings)
     = Some (NotASupportedDisplayMode (PMode simple)) \<and>
   settings (snd (settings_context plain_enum_env [(''random_state'', PInt 5)] (\<lambda>s. (None, s))
     get_settings)) ''RANDOM_STATE'' = PInt 5"
proof -
  have m: "settings get_settings ''DISPLAY_MODE'' = PMode simple"
    by (simp add: get_settings_def default_settings_def)
  have p: "registry_passive plain_enum_env"
    by (simp add: registry_passive_def plain_enum_env_def sample_env_def)
  have "settings_context plain_enum_env [(''random_state'', PInt 5)] (\<lambda>s. (None, s)) get_settings =
      scope_exit plain_enum_env (settings_dict get_settings)
        (None, effect ''RANDOM_STATE'' (PInt 5) get_settings)"
    by (simp add: settings_context_enter [OF random_state_scope])
  then show ?thesis
    by (simp add: scope_exit_def restore_around_mode [OF wf_get_settings] m
        set_option_mode_plain_enum and_then_def settings_effect wf_get_settings p)
qed

lemma set_option_mode_resetting:
  "set_option resetting_env ''DISPLAY_MODE'' (PMode m) t =
     (None, t\<lparr>settings := (settings t)(''DISPLAY_MODE'' := PMode m, ''DISPLAY_MAX_ROWS'' := PInt 60),
              calls := calls t @ [mode_action m]\<rparr>)"
proof -
  have f: "''DISPLAY_MODE'' \<in> set field_names" by (simp add: field_names_def schema_def)
  have e: "mode_str_is_value resetting_env"
    by (simp add: mode_str_is_value_def resetting_env_def sample_env_def)
  have fe: "\<And>a u. formatter_effect resetting_env a u =
      (None, u\<lparr>settings := (settings u)(''DISPLAY_MAX_ROWS'' := PInt 60)\<rparr>)"
    by (simp add: resetting_env_def)
  have sdm: "\<And>u. set_display_mode resetting_env (PMode m) u =
      (None, u\<lparr>settings := (settings u)(''DISPLAY_MODE'' := PMode m, ''DISPLAY_MAX_ROWS'' := PInt 60),
               calls := calls u @ [mode_action m]\<rparr>)"
    by (simp add: set_display_mode_enum [OF e] formatter_call_def fe)
  show ?thesis
    by (simp add: set_option_field [OF f] setattr_mode type_validate_def pd_options_def
          and_then_def sdm)
qed

text \<open>
  When a function of the formatter registry overwrites a field declared before the display
  mode, the restoring loop writes the field back and the mode switch overwrites it again:
  with no override at all, a row maximum of 10 is 60 after the scope.
\<close>

lemma restore_needs_passive_registry:
  "mode_str_is_value resetting_env \<and>
   wf_config (effect ''DISPLAY_MAX_ROWS'' (PInt 10) get_settings) \<and>
   settings (effect ''DISPLAY_MAX_ROWS'' (PInt 10) get_settings) ''DISPLAY_MAX_ROWS'' = PInt 10 \<and>
   fst (settings_context resetting_env [] (\<lambda>s. (None, s))
          (effect ''DISPLAY_MAX_ROWS'' (PInt 10) get_settings)) = None \<and>
   settings (snd (settings_context resetting_env [] (\<lambda>s. (None, s))
          (effect ''DISPLAY_MAX_ROWS'' (PInt 10) get_settings))) ''DISPLAY_MAX_ROWS'' = PInt 60"
proof -
  let ?s = "effect ''DISPLAY_MAX_ROWS'' (PInt 10) get_settings"
  have e: "mode_str_is_value resetting_env"
    by (simp add: mode_str_is_value_def resetting_env_def sample_env_def)
  have wf: "wf_config ?s"
    by (rule wf_effect [OF wf_get_settings])
       (simp add: valid_value_def schema_def well_typed_def non_negative_def)
  have m: "settings ?s ''DISPLAY_MODE'' = PMode simple"
    by (simp add: settings_effect get_settings_def default_settings_def)
  have en: "scope_enter resetting_env [] ?s = (None, ?s)"
    by (simp add: scope_enter_def upper_keys_def scope_mode_def dict_remove_def and_then_def)
  have "settings_context resetting_env [] (\<lambda>s. (None, s)) ?s =
      scope_exit resetting_env (settings_dict ?s) (None, ?s)"
    by (simp add: settings_context_enter [OF en])
  moreover have "settings get_settings ''DISPLAY_MODE'' = PMode simple"
    by (simp add: get_settings_def default_settings_def)
  ultimately show ?thesis
    by (simp add: scope_exit_def restore_around_mode [OF wf] m set_option_mode_resetting
        and_then_def settings_effect e wf)
qed

end
